theory Spec2Isabelle
  imports Main
begin

section \<open>Configuration (config.go)\<close>

text \<open>
  \<^verbatim>\<open>type DefaultConfig struct { ServerName string; HostName string; ServerPort int }\<close>
  is the only implementation of the \<^verbatim>\<open>Config\<close> interface in the repository, so the
  interface is modelled by the struct. No arithmetic is done on the port, hence the
  Go \<^verbatim>\<open>int\<close> is an \<open>int\<close> here.
\<close>

record DefaultConfig =
  ServerName :: string
  HostName :: string
  ServerPort :: int

text \<open>
  \<^verbatim>\<open>fmt.Sprintf("%d", n)\<close>: the decimal numeral of \<open>n\<close>, most significant digit
  first, with a leading minus sign for a negative number.
\<close>

definition digit_char :: "nat \<Rightarrow> char" where
  "digit_char d = char_of (48 + d)"

fun show_nat :: "nat \<Rightarrow> string" where
  "show_nat n = (if n < 10 then [digit_char n] else show_nat (n div 10) @ [digit_char (n mod 10)])"

declare show_nat.simps [simp del]

definition show_int :: "int \<Rightarrow> string" where
  "show_int i = (if i < 0 then CHR ''-'' # show_nat (nat (- i)) else show_nat (nat i))"

text \<open>
  Reading a decimal numeral back: the value of a digit string, and of an optionally
  signed one. It is used to say what \<open>show_int\<close> writes, and as the integer parser
  of the environment in the examples.
\<close>

definition digit_val :: "char \<Rightarrow> nat option" where
  "digit_val c = (let k = of_char c :: nat in if 48 \<le> k \<and> k \<le> 57 then Some (k - 48) else None)"

fun read_digits :: "nat \<Rightarrow> string \<Rightarrow> nat option" where
  "read_digits acc [] = Some acc"
| "read_digits acc (c # cs) =
     (case digit_val c of None \<Rightarrow> None | Some d \<Rightarrow> read_digits (10 * acc + d) cs)"

definition read_nat :: "string \<Rightarrow> nat option" where
  "read_nat s = (if s = [] then None else read_digits 0 s)"

definition read_int :: "string \<Rightarrow> int option" where
  "read_int s =
     (case s of
        [] \<Rightarrow> None
      | c # cs \<Rightarrow>
          if c = CHR ''-'' then map_option (\<lambda>n. - int n) (read_nat cs)
          else map_option int (read_nat s))"

definition NewConfigWithHost :: "string \<Rightarrow> string \<Rightarrow> int \<Rightarrow> DefaultConfig" where
  "NewConfigWithHost name host port =
     \<lparr>ServerName = name, HostName = host, ServerPort = port\<rparr>"

definition NewConfig :: "string \<Rightarrow> int \<Rightarrow> DefaultConfig" where
  "NewConfig name port = NewConfigWithHost name '''' port"

definition Name :: "DefaultConfig \<Rightarrow> string" where
  "Name c = ServerName c"

definition Host :: "DefaultConfig \<Rightarrow> string" where
  "Host c = HostName c"

definition Port :: "DefaultConfig \<Rightarrow> int" where
  "Port c = ServerPort c"

definition addr :: "DefaultConfig \<Rightarrow> string" where
  "addr c = HostName c @ '':'' @ show_int (ServerPort c)"

text \<open>
  The struct tags of \<open>DefaultConfig\<close>, as written in config.go: the name each field
  is looked up under and its default text.
  \<^verbatim>\<open>ServerName `default:"server" envconfig:"name"`\<close>,
  \<^verbatim>\<open>HostName `default:"" envconfig:"host"`\<close>,
  \<^verbatim>\<open>ServerPort `default:"8000" envconfig:"port"`\<close>.
\<close>

definition ServerName_tag :: "string \<times> string" where
  "ServerName_tag = (''name'', ''server'')"

definition HostName_tag :: "string \<times> string" where
  "HostName_tag = (''host'', '''')"

definition ServerPort_tag :: "string \<times> string" where
  "ServerPort_tag = (''port'', ''8000'')"

text \<open>
  Modelled from the spec: \<^verbatim>\<open>envconfig.MustProcess\<close> of the imported package
  github.com/kelseyhightower/envconfig, which \<open>NewEnvConfig\<close> calls and whose code is
  not among the source files. The spec (section 6) says that the configuration
  surface resolves name, host and port, that the port defaults to 8000 and the host
  to all interfaces. The model takes two parameters for what the package decides:
  \<open>lookup\<close>, the text the environment holds for a field's tag name (\<open>None\<close> when the
  environment sets nothing for it), and \<open>atoi\<close>, the package's integer parser. A
  field the environment does not set takes its default text; a port text that does
  not parse makes \<^verbatim>\<open>MustProcess\<close> panic, which is \<open>None\<close>.
\<close>

definition field_text :: "(string \<Rightarrow> string option) \<Rightarrow> string \<times> string \<Rightarrow> string" where
  "field_text lookup tag = (case lookup (fst tag) of Some v \<Rightarrow> v | None \<Rightarrow> snd tag)"

definition MustProcess ::
  "(string \<Rightarrow> string option) \<Rightarrow> (string \<Rightarrow> int option) \<Rightarrow> DefaultConfig option" where
  "MustProcess lookup atoi =
     (case atoi (field_text lookup ServerPort_tag) of
        None \<Rightarrow> None
      | Some p \<Rightarrow>
          Some \<lparr>ServerName = field_text lookup ServerName_tag,
                HostName = field_text lookup HostName_tag,
                ServerPort = p\<rparr>)"

definition NewEnvConfig ::
  "(string \<Rightarrow> string option) \<Rightarrow> (string \<Rightarrow> int option) \<Rightarrow> DefaultConfig option" where
  "NewEnvConfig lookup atoi = MustProcess lookup atoi"

section \<open>Errors, closers and the outside world (serviceRunner.go)\<close>

text \<open>
  A Go \<^verbatim>\<open>error\<close> value that is not nil. \<open>ErrServerClosed\<close> is
  \<^verbatim>\<open>http.ErrServerClosed\<close>; \<open>ErrWrap\<close> is an error that wraps another one, as
  \<^verbatim>\<open>fmt.Errorf("...: %w", err)\<close> builds it. A nil error is \<open>None\<close>, so an actor's
  outcome is an \<open>error option\<close>: \<open>None\<close> is Success, \<open>Some e\<close> is Failure with cause \<open>e\<close>.
\<close>

datatype error = ErrServerClosed | ErrOther string | ErrWrap string error

text \<open>\<^verbatim>\<open>errors.Is(err, target)\<close>: \<open>err\<close> or an error in its chain of wrapped errors is \<open>target\<close>.\<close>

fun errors_Is :: "error \<Rightarrow> error \<Rightarrow> bool" where
  "errors_Is (ErrWrap m e) target = (ErrWrap m e = target \<or> errors_Is e target)"
| "errors_Is e target = (e = target)"

datatype handler = Mux nat

datatype logger = Slog nat

text \<open>\<^verbatim>\<open>&http.Server{Addr: a.addr(), Handler: mu}\<close>\<close>

record http_Server =
  Addr :: string
  Handler :: handler

text \<open>
  A \<^verbatim>\<open>func() error\<close> handed to \<open>Closer\<close>: its name and the error a call of it returns.
\<close>

datatype closeFn = CloseFn nat "error option"

fun closeFn_call :: "closeFn \<Rightarrow> error option" where
  "closeFn_call (CloseFn n res) = res"

text \<open>
  The \<^verbatim>\<open>io.Closer\<close> values of the program: the repository's \<^verbatim>\<open>closer{closeFn: fn}\<close>,
  which stands for every cleanup a caller registers, the \<^verbatim>\<open>*http.Server\<close> that
  \<open>startHttpServer\<close> returns, and \<^verbatim>\<open>io.NopCloser(nil)\<close>.
\<close>

datatype io_Closer = closer closeFn | Server http_Server | NopCloser

definition Closer :: "closeFn \<Rightarrow> io_Closer" where
  "Closer fn = closer fn"

text \<open>
  \<^verbatim>\<open>context.Context\<close>, of which the program only uses \<^verbatim>\<open><-ctx.Done()\<close>: \<open>fires ctx\<close>
  says that the channel is closed at some time, so that the receive returns.
\<close>

datatype Context = Ctx (fires: bool)

text \<open>
  \<^verbatim>\<open>type RunFn func(ctx context.Context)\<close>: a background function, with a name and
  what decides whether a call of it returns: at once, when the context is done, or
  never.
\<close>

datatype returns = AtOnce | WhenDone | Never

datatype RunFn = RunFn nat returns

fun RunFn_returns :: "RunFn \<Rightarrow> Context \<Rightarrow> bool" where
  "RunFn_returns (RunFn n AtOnce) ctx = True"
| "RunFn_returns (RunFn n WhenDone) ctx = fires ctx"
| "RunFn_returns (RunFn n Never) ctx = False"

text \<open>
  What the program does to the outside, in the order one goroutine does it: the calls
  \<^verbatim>\<open>srv.ListenAndServe()\<close>, \<^verbatim>\<open>c.Close()\<close>, \<^verbatim>\<open>runFn(ctx)\<close>, a log record
  (\<^verbatim>\<open>logger.Debug\<close>, \<^verbatim>\<open>logger.Error\<close> with the message and the arguments) and
  \<^verbatim>\<open>os.Exit(code)\<close>.
\<close>

datatype level = Debug | Error

datatype any = Str string | Err error

datatype event =
    Serve http_Server
  | Closed io_Closer
  | Called RunFn Context
  | Log logger level string "any list"
  | Exit int

text \<open>
  What the standard library answers: \<open>ListenAndServe\<close> is what
  \<^verbatim>\<open>srv.ListenAndServe()\<close> returns (\<open>None\<close>: it never returns; \<open>Some None\<close>: it returns
  nil; \<open>Some (Some e)\<close>: it returns the error \<open>e\<close>), and \<open>Server_Close\<close> is what
  \<^verbatim>\<open>(*http.Server).Close()\<close> returns. Both are free: the theorems hold whatever the
  library answers, also for the answers net/http never gives (it documents that
  \<^verbatim>\<open>ListenAndServe\<close> never returns nil, and that it returns \<^verbatim>\<open>ErrServerClosed\<close> once
  the server is closed). A call of \<open>Close\<close> is taken to return, and a panic of a
  cleanup or of a background function, which ends the process, is not modelled.
\<close>

record world =
  ListenAndServe :: "error option option"
  Server_Close :: "error option"

text \<open>\<^verbatim>\<open>c.Close()\<close>: the call and the error it returns.\<close>

fun Close :: "world \<Rightarrow> io_Closer \<Rightarrow> event list \<times> error option" where
  "Close w (closer fn) = ([Closed (closer fn)], closeFn_call fn)"
| "Close w (Server srv) = ([Closed (Server srv)], Server_Close w)"
| "Close w NopCloser = ([Closed NopCloser], None)"

section \<open>Actors\<close>

text \<open>
  The pairs of closures the runner hands to \<^verbatim>\<open>r.Add(execute, interrupt)\<close>, each with
  the variables it captures: the listener actor of \<open>startHttpServer\<close> (\<open>srv\<close>, and
  through \<open>r\<close> the logger and the configuration), the actor of \<open>Run\<close> that waits for
  the context (\<open>ctx\<close>, \<open>srv\<close>, and through \<open>r\<close> the cleanup list, which nothing
  changes between \<open>Add\<close> and the actor's execution), and the actor of a background
  function (\<open>runFn\<close>, \<open>ctx\<close>).
\<close>

datatype actor =
    HttpActor http_Server logger DefaultConfig
  | WatchActor Context io_Closer "io_Closer list"
  | RunFnActor RunFn Context

text \<open>
  The listener's \<open>execute\<close>, after \<^verbatim>\<open>srv.ListenAndServe()\<close> has returned \<open>res\<close>:
  \<^verbatim>\<open>if err != nil { if !errors.Is(err, http.ErrServerClosed) { return err } }; return nil\<close>
\<close>

definition serve_outcome :: "error option \<Rightarrow> error option" where
  "serve_outcome res =
     (case res of
        Some err \<Rightarrow> if \<not> errors_Is err ErrServerClosed then Some err else None
      | None \<Rightarrow> None)"

text \<open>
  \<^verbatim>\<open>for _, closer := range r.cleanup { _ = closer.Close() }\<close>: every error is dropped.
\<close>

fun close_all :: "world \<Rightarrow> io_Closer list \<Rightarrow> event list" where
  "close_all w [] = []"
| "close_all w (c # cs) = (case Close w c of (evs, err) \<Rightarrow> evs @ close_all w cs)"

text \<open>
  An actor's \<open>execute\<close>: the events of the call and the error it returns, or \<open>None\<close>
  when the call never returns.
\<close>

fun execute :: "world \<Rightarrow> actor \<Rightarrow> (event list \<times> error option) option" where
  "execute w (HttpActor srv lg cfg) =
     (case ListenAndServe w of
        None \<Rightarrow> None
      | Some res \<Rightarrow> Some ([Serve srv], serve_outcome res))"
| "execute w (WatchActor ctx srv cs) =
     (if fires ctx
      then (case Close w srv of (evs, err) \<Rightarrow> Some (evs @ close_all w cs, None))
      else None)"
| "execute w (RunFnActor runFn ctx) =
     (if RunFn_returns runFn ctx then Some ([Called runFn ctx], None) else None)"

text \<open>
  An actor's \<open>interrupt(err)\<close>: the listener's logs a non-nil error, the two others
  are empty functions.
\<close>

fun interrupt :: "actor \<Rightarrow> error option \<Rightarrow> event list" where
  "interrupt (HttpActor srv lg cfg) err =
     (case err of
        Some e \<Rightarrow> [Log lg Error ''http server failure''
                     [Str ''service'', Str (Name cfg), Str ''err'', Err e]]
      | None \<Rightarrow> [])"
| "interrupt (WatchActor ctx srv cs) err = []"
| "interrupt (RunFnActor runFn ctx) err = []"

section \<open>The actor group\<close>

text \<open>
  Modelled from the spec: \<^verbatim>\<open>run.Group\<close> of the imported package github.com/oklog/run
  (\<^verbatim>\<open>Add\<close> and \<^verbatim>\<open>Run\<close>), which the runner embeds and whose code is not among the
  source files. Section 4.1 of the spec: \<open>Add\<close> registers an actor, in order;
  \<open>Run\<close> launches every actor's \<open>execute\<close>, the first one to return (the trigger,
  here the actor at position \<open>t\<close>, which the scheduler and the timing choose)
  produces the outcome \<open>O\<close>, \<open>interrupt(O)\<close> is called once on every actor other than
  the trigger, \<open>Run\<close> blocks until every \<open>execute\<close> has returned and returns \<open>O\<close>.
  The result keeps each actor's events and outcome apart, in registration order
  (\<open>executions\<close>): the spec orders the events of one actor and puts all of them
  before the return of \<open>Run\<close>, and leaves the order between actors open. The
  \<open>interrupts\<close> are the calls made, each with the actor's position and its events.
  \<open>None\<close>: \<open>Run\<close> does not return, because an \<open>execute\<close> never returns or because
  there is no actor at position \<open>t\<close>.
\<close>

record group_result =
  outcome :: "error option"
  executions :: "(event list \<times> error option) list"
  interrupts :: "(nat \<times> event list) list"

definition Group_Add :: "actor list \<Rightarrow> actor \<Rightarrow> actor list" where
  "Group_Add g a = g @ [a]"

definition Group_Run :: "world \<Rightarrow> nat \<Rightarrow> actor list \<Rightarrow> group_result option" where
  "Group_Run w t g =
     (case those (map (execute w) g) of
        None \<Rightarrow> None
      | Some runs \<Rightarrow>
          if t < length g then
            Some \<lparr>outcome = snd (runs ! t),
                  executions = runs,
                  interrupts =
                    map (\<lambda>i. (i, interrupt (g ! i) (snd (runs ! t))))
                      (filter (\<lambda>i. i \<noteq> t) [0..<length g])\<rparr>
          else None)"

section \<open>The runner\<close>

text \<open>
  \<^verbatim>\<open>type runner struct { *run.Group; serverConfig Config; logger *slog.Logger;
  runners []RunFn; cleanup []io.Closer; forTesting bool }\<close>. The field \<open>Group\<close> is the
  group's list of actors.
\<close>

record runner =
  Group :: "actor list"
  serverConfig :: DefaultConfig
  logger :: logger
  runners :: "RunFn list"
  cleanup :: "io_Closer list"
  forTesting :: bool

text \<open>
  \<^verbatim>\<open>forTesting := false; if len(testing) == 1 && testing[0] { forTesting = true }\<close>
\<close>

definition New :: "DefaultConfig \<Rightarrow> logger \<Rightarrow> bool list \<Rightarrow> runner" where
  "New cfg lg testing =
     \<lparr>Group = [],
      serverConfig = cfg,
      logger = lg,
      runners = [],
      cleanup = [],
      forTesting = (if length testing = 1 then testing ! 0 else False)\<rparr>"

text \<open>\<open>NewEnv\<close> is \<open>None\<close> when \<open>NewEnvConfig\<close> panics.\<close>

definition NewEnv ::
  "(string \<Rightarrow> string option) \<Rightarrow> (string \<Rightarrow> int option) \<Rightarrow> logger \<Rightarrow> bool list \<Rightarrow> runner option" where
  "NewEnv lookup atoi lg testing =
     (case NewEnvConfig lookup atoi of
        None \<Rightarrow> None
      | Some cfg \<Rightarrow> Some (New cfg lg testing))"

text \<open>
  The methods have the pointer receiver \<^verbatim>\<open>r *runner\<close>. \<open>AddRunner\<close> and \<open>OnClose\<close>
  are the effect of the body on the struct \<open>r\<close> points to; \<open>AddRunner_at\<close> and
  \<open>OnClose_at\<close> are the calls through the pointer, in a store of runners: they
  return the pointer and the store (\<open>None\<close>: the pointer is nil or dangling, the
  call panics).
\<close>

definition AddRunner :: "runner \<Rightarrow> RunFn list \<Rightarrow> runner" where
  "AddRunner r fns = r\<lparr>runners := runners r @ fns\<rparr>"

definition OnClose :: "runner \<Rightarrow> io_Closer list \<Rightarrow> runner" where
  "OnClose r cs = r\<lparr>cleanup := cleanup r @ cs\<rparr>"

type_synonym ref = nat

type_synonym store = "ref \<Rightarrow> runner option"

definition AddRunner_at :: "store \<Rightarrow> ref \<Rightarrow> RunFn list \<Rightarrow> (ref \<times> store) option" where
  "AddRunner_at h p fns =
     (case h p of None \<Rightarrow> None | Some r \<Rightarrow> Some (p, h(p \<mapsto> AddRunner r fns)))"

definition OnClose_at :: "store \<Rightarrow> ref \<Rightarrow> io_Closer list \<Rightarrow> (ref \<times> store) option" where
  "OnClose_at h p cs =
     (case h p of None \<Rightarrow> None | Some r \<Rightarrow> Some (p, h(p \<mapsto> OnClose r cs)))"

text \<open>\<open>startHttpServer\<close>: the receiver after the call, and the closer it returns.\<close>

definition startHttpServer :: "runner \<Rightarrow> handler \<Rightarrow> runner \<times> io_Closer" where
  "startHttpServer r mu =
     (if forTesting r then (r, NopCloser)
      else
        let a = serverConfig r;
            srv = \<lparr>Addr = addr a, Handler = mu\<rparr>
        in (r\<lparr>Group := Group_Add (Group r) (HttpActor srv (logger r) (serverConfig r))\<rparr>,
            Server srv))"

text \<open>
  \<^verbatim>\<open>for _, runFn := range r.runners { r.Add(func() error { runFn(ctx); return nil },
  func(error) {}) }\<close>, the loop that \<open>Async\<close> and \<open>Run\<close> both have. Each closure
  holds the \<open>runFn\<close> of its own iteration (the loop variable is per iteration, as
  the language defines it from Go 1.22 on).
\<close>

definition add_runFns :: "Context \<Rightarrow> runner \<Rightarrow> runner" where
  "add_runFns ctx r =
     foldl (\<lambda>r' runFn. r'\<lparr>Group := Group_Add (Group r') (RunFnActor runFn ctx)\<rparr>) r (runners r)"

text \<open>
  \<^verbatim>\<open>keyValues := make([]any, 0); if r.forTesting { keyValues = append(keyValues,
  "TESTING-MODE", "ON") }\<close>
\<close>

definition keyValues :: "runner \<Rightarrow> any list" where
  "keyValues r = (if forTesting r then [] @ [Str ''TESTING-MODE'', Str ''ON''] else [])"

text \<open>
  A call of \<open>Async\<close> or \<open>Run\<close> that comes to its end: the receiver as the call
  leaves it, the events of the calling goroutine before \<^verbatim>\<open>r.Group.Run()\<close>
  (\<open>started\<close>), the group's result, the events of the calling goroutine after it
  (\<open>finished\<close>), and how the call ends: it returns, or \<^verbatim>\<open>os.Exit\<close> ends the process.
\<close>

datatype status = Returned | Exited int

record run_result =
  receiver :: runner
  started :: "event list"
  group_result :: group_result
  finished :: "event list"
  status :: status

text \<open>The actors of \<open>Async\<close> (the receiver after the loop), and \<open>Async\<close>.\<close>

definition Async_actors :: "runner \<Rightarrow> Context \<Rightarrow> runner" where
  "Async_actors r ctx = add_runFns ctx r"

definition Async :: "world \<Rightarrow> nat \<Rightarrow> runner \<Rightarrow> Context \<Rightarrow> run_result option" where
  "Async w t r ctx =
     (let r' = Async_actors r ctx;
          log = [Log (logger r') Debug ''async runner started'' (keyValues r')]
      in case Group_Run w t (Group r') of
           None \<Rightarrow> None
         | Some g \<Rightarrow>
             (case outcome g of
                Some err \<Rightarrow>
                  Some \<lparr>receiver = r', started = log, group_result = g,
                        finished = [Log (logger r') Error ''group runner failure''
                                      [Str ''mode'', Str ''async'', Str ''err'', Err err],
                                    Exit 1],
                        status = Exited 1\<rparr>
              | None \<Rightarrow>
                  Some \<lparr>receiver = r', started = log, group_result = g,
                        finished = [], status = Returned\<rparr>))"

text \<open>
  The actors of \<open>Run\<close> (the receiver after \<open>startHttpServer\<close>, the \<open>Add\<close> of the
  actor that waits for the context, and the loop), and \<open>Run\<close>.
\<close>

definition Run_actors :: "runner \<Rightarrow> Context \<Rightarrow> handler \<Rightarrow> runner" where
  "Run_actors r ctx mu =
     (case startHttpServer r mu of
        (r1, srv) \<Rightarrow>
          add_runFns ctx
            (r1\<lparr>Group := Group_Add (Group r1) (WatchActor ctx srv (cleanup r1))\<rparr>))"

definition Run :: "world \<Rightarrow> nat \<Rightarrow> runner \<Rightarrow> Context \<Rightarrow> handler \<Rightarrow> run_result option" where
  "Run w t r ctx mu =
     (let r' = Run_actors r ctx mu;
          log = [Log (logger r') Debug ''group runner start'' (keyValues r')]
      in case Group_Run w t (Group r') of
           None \<Rightarrow> None
         | Some g \<Rightarrow>
             (case outcome g of
                Some err \<Rightarrow>
                  Some \<lparr>receiver = r', started = log, group_result = g,
                        finished = [Log (logger r') Error ''group runner failure''
                                      [Str ''mode'', Str ''sync'', Str ''err'', Err err],
                                    Exit 1],
                        status = Exited 1\<rparr>
              | None \<Rightarrow>
                  Some \<lparr>receiver = r', started = log, group_result = g,
                        finished = [], status = Returned\<rparr>))"

text \<open>Reading a result: the \<open>Close\<close> calls and the \<open>ListenAndServe\<close> calls among events.\<close>

fun is_Closed :: "event \<Rightarrow> bool" where
  "is_Closed (Closed c) = True"
| "is_Closed e = False"

fun is_Serve :: "event \<Rightarrow> bool" where
  "is_Serve (Serve srv) = True"
| "is_Serve e = False"

fun is_HttpActor :: "actor \<Rightarrow> bool" where
  "is_HttpActor (HttpActor srv lg cfg) = True"
| "is_HttpActor a = False"

definition all_events :: "group_result \<Rightarrow> event list" where
  "all_events g = concat (map fst (executions g))"

section \<open>Example inputs\<close>

text \<open>
  A runner built as a caller builds one (\<open>New\<close>, then \<open>AddRunner\<close> with a background
  function that returns when the context is done, then \<open>OnClose\<close> with two cleanups,
  the first of which fails), a context that is cancelled, and two worlds: one where
  \<^verbatim>\<open>ListenAndServe\<close> ends because the server was closed, one where binding fails.
\<close>

definition example_cleanups :: "io_Closer list" where
  "example_cleanups =
     [Closer (CloseFn 1 (Some (ErrOther ''connection lost''))), Closer (CloseFn 2 None)]"

definition example_runner :: "bool list \<Rightarrow> runner" where
  "example_runner testing =
     OnClose (AddRunner (New (NewConfig ''svc'' 8080) (Slog 0) testing) [RunFn 1 WhenDone])
       example_cleanups"

definition example_server :: http_Server where
  "example_server = \<lparr>Addr = '':8080'', Handler = Mux 0\<rparr>"

definition world_closed :: world where
  "world_closed = \<lparr>ListenAndServe = Some (Some ErrServerClosed), Server_Close = None\<rparr>"

definition world_in_use :: world where
  "world_in_use =
     \<lparr>ListenAndServe = Some (Some (ErrOther ''address in use'')), Server_Close = None\<rparr>"

definition example_group :: "actor list" where
  "example_group =
     [HttpActor example_server (Slog 0) (NewConfig ''svc'' 8080),
      WatchActor (Ctx True) (Server example_server) example_cleanups,
      RunFnActor (RunFn 1 WhenDone) (Ctx True)]"

section \<open>Decimal numerals\<close>

lemma digit_val_digit_char: "d < 10 \<Longrightarrow> digit_val (digit_char d) = Some d"
  by (simp add: digit_val_def digit_char_def Let_def)

lemma read_digits_append:
  "read_digits acc (xs @ ys) =
     (case read_digits acc xs of None \<Rightarrow> None | Some a \<Rightarrow> read_digits a ys)"
  by (induction xs arbitrary: acc) (auto split: option.splits)

lemma read_digits_show_nat: "read_digits 0 (show_nat n) = Some n"
proof (induction n rule: show_nat.induct)
  case (1 n)
  show ?case
  proof (cases "n < 10")
    case True
    then show ?thesis
      by (subst show_nat.simps) (simp add: digit_val_digit_char)
  next
    case False
    then have "read_digits 0 (show_nat (n div 10)) = Some (n div 10)"
      using "1.IH" by simp
    moreover have "digit_val (digit_char (n mod 10)) = Some (n mod 10)"
      by (simp add: digit_val_digit_char)
    ultimately show ?thesis
      using False by (subst show_nat.simps) (simp add: read_digits_append)
  qed
qed

lemma show_nat_not_Nil: "show_nat n \<noteq> []"
  by (subst show_nat.simps) simp

lemma read_nat_show_nat: "read_nat (show_nat n) = Some n"
  by (simp add: read_nat_def show_nat_not_Nil read_digits_show_nat)

lemma digit_val_minus: "digit_val (CHR ''-'') = None"
  by (simp add: digit_val_def)

lemma hd_show_nat_digit: "digit_val (hd (show_nat n)) \<noteq> None"
proof (induction n rule: show_nat.induct)
  case (1 n)
  show ?case
  proof (cases "n < 10")
    case True
    then show ?thesis
      by (subst show_nat.simps) (simp add: digit_val_digit_char)
  next
    case False
    then show ?thesis
      using "1.IH" by (subst show_nat.simps) (simp add: show_nat_not_Nil)
  qed
qed

lemma hd_show_nat_not_minus: "hd (show_nat n) \<noteq> CHR ''-''"
  using hd_show_nat_digit [of n] digit_val_minus by auto

lemma read_int_show_int: "read_int (show_int i) = Some i"
proof (cases "i < 0")
  case True
  then show ?thesis
    by (simp add: read_int_def show_int_def read_nat_show_nat)
next
  case False
  obtain c cs where s: "show_nat (nat i) = c # cs"
    using show_nat_not_Nil [of "nat i"] by (cases "show_nat (nat i)") auto
  have "c \<noteq> CHR ''-''"
    using hd_show_nat_not_minus [of "nat i"] s by simp
  moreover have "read_nat (c # cs) = Some (nat i)"
    using read_nat_show_nat [of "nat i"] s by simp
  ultimately show ?thesis
    using False s by (simp add: read_int_def show_int_def)
qed

lemma digit_char_numerals:
  "digit_char 0 = CHR ''0''" "digit_char 1 = CHR ''1''" "digit_char 2 = CHR ''2''"
  "digit_char 3 = CHR ''3''" "digit_char 4 = CHR ''4''" "digit_char 5 = CHR ''5''"
  "digit_char 6 = CHR ''6''" "digit_char 7 = CHR ''7''" "digit_char 8 = CHR ''8''"
  "digit_char 9 = CHR ''9''"
  by code_simp+

section \<open>The configuration's address\<close>

text \<open>
  C8: the address of a configuration is its host, a colon and the decimal numeral of
  its port (reading the numeral back gives the port); \<open>NewConfig name p\<close> has the
  empty host, so its address is a colon and the numeral of \<open>p\<close>; and a configuration
  built from an environment that sets nothing has the name "server", the empty host
  and the port that the default text "8000" parses to.
\<close>

theorem addr_is_host_colon_decimal_port:
  "addr c = HostName c @ '':'' @ show_int (ServerPort c) \<and>
   read_int (show_int (ServerPort c)) = Some (ServerPort c) \<and>
   addr (NewConfig name p) = '':'' @ show_int p \<and>
   addr (NewConfigWithHost name host p) = host @ '':'' @ show_int p \<and>
   NewEnvConfig (\<lambda>k. None) atoi =
     map_option (\<lambda>port. \<lparr>ServerName = ''server'', HostName = '''', ServerPort = port\<rparr>)
       (atoi ''8000'')"
  by (simp add: addr_def read_int_show_int NewConfig_def NewConfigWithHost_def
      NewEnvConfig_def MustProcess_def field_text_def ServerName_tag_def HostName_tag_def
      ServerPort_tag_def split: option.splits)

text \<open>The addresses of three configurations, the last one built from an empty environment.\<close>

lemma addr_examples:
  "addr (NewConfig ''svc'' 8080) = '':8080'' \<and>
   addr (NewConfigWithHost ''svc'' ''localhost'' 443) = ''localhost:443'' \<and>
   NewEnvConfig (\<lambda>k. None) read_int =
     Some \<lparr>ServerName = ''server'', HostName = '''', ServerPort = 8000\<rparr> \<and>
   addr \<lparr>ServerName = ''server'', HostName = '''', ServerPort = 8000\<rparr> = '':8000''"
  by (simp add: addr_def NewConfig_def NewConfigWithHost_def show_int_def show_nat.simps
      digit_char_numerals NewEnvConfig_def MustProcess_def field_text_def ServerName_tag_def
      HostName_tag_def ServerPort_tag_def read_int_def read_nat_def digit_val_def)

section \<open>Building a runner\<close>

text \<open>
  C9: \<open>New\<close> turns testing mode on exactly when the variadic argument is the one
  value \<open>true\<close>: not for no argument, a single \<open>false\<close>, or two or more arguments.
  \<open>NewEnv\<close>, when it returns a runner, does the same.
\<close>

theorem New_forTesting_iff_single_true:
  "forTesting (New cfg lg testing) = (testing = [True]) \<and>
   (\<forall>r. NewEnv lookup atoi lg testing = Some r \<longrightarrow> forTesting r = (testing = [True]))"
proof -
  have a: "forTesting (New cfg' lg testing) = (testing = [True])" for cfg'
    by (cases testing) (auto simp: New_def)
  show ?thesis
    using a by (auto simp: NewEnv_def split: option.splits)
qed

theorem New_forTesting_witness:
  "NewEnv (\<lambda>k. None) read_int (Slog 0) [True] =
     Some (New \<lparr>ServerName = ''server'', HostName = '''', ServerPort = 8000\<rparr> (Slog 0) [True]) \<and>
   forTesting (New \<lparr>ServerName = ''server'', HostName = '''', ServerPort = 8000\<rparr> (Slog 0) [True]) \<and>
   \<not> forTesting (New (NewConfig ''svc'' 8080) (Slog 0) []) \<and>
   \<not> forTesting (New (NewConfig ''svc'' 8080) (Slog 0) [False]) \<and>
   \<not> forTesting (New (NewConfig ''svc'' 8080) (Slog 0) [True, True])"
proof -
  have e: "NewEnv (\<lambda>k. None) read_int (Slog 0) [True] =
     Some (New \<lparr>ServerName = ''server'', HostName = '''', ServerPort = 8000\<rparr> (Slog 0) [True])"
    by (simp add: NewEnv_def NewEnvConfig_def MustProcess_def field_text_def ServerName_tag_def
        HostName_tag_def ServerPort_tag_def read_int_def read_nat_def digit_val_def)
  show ?thesis
    using e
      New_forTesting_iff_single_true [of "NewConfig ''svc'' 8080" "Slog 0" "[]" "\<lambda>k. None" read_int]
      New_forTesting_iff_single_true [of "NewConfig ''svc'' 8080" "Slog 0" "[False]" "\<lambda>k. None" read_int]
      New_forTesting_iff_single_true [of "NewConfig ''svc'' 8080" "Slog 0" "[True, True]" "\<lambda>k. None" read_int]
      New_forTesting_iff_single_true [of "NewConfig ''svc'' 8080" "Slog 0" "[True]" "\<lambda>k. None" read_int]
    by simp
qed

text \<open>
  C10: \<open>AddRunner\<close> appends its arguments to the background functions and leaves
  the cleanup list, the configuration, the logger, the testing flag and the actor
  group as they are; \<open>OnClose\<close> appends to the cleanup list and leaves every other
  field as it is. Called through a pointer to a runner, each returns that pointer,
  and no other runner of the store changes.
\<close>

theorem AddRunner_OnClose_frame:
  "runners (AddRunner r fns) = runners r @ fns \<and>
   cleanup (AddRunner r fns) = cleanup r \<and>
   serverConfig (AddRunner r fns) = serverConfig r \<and>
   logger (AddRunner r fns) = logger r \<and>
   forTesting (AddRunner r fns) = forTesting r \<and>
   Group (AddRunner r fns) = Group r \<and>
   cleanup (OnClose r cs) = cleanup r @ cs \<and>
   runners (OnClose r cs) = runners r \<and>
   serverConfig (OnClose r cs) = serverConfig r \<and>
   logger (OnClose r cs) = logger r \<and>
   forTesting (OnClose r cs) = forTesting r \<and>
   Group (OnClose r cs) = Group r \<and>
   (h p = Some r \<longrightarrow>
      (\<exists>h'. AddRunner_at h p fns = Some (p, h') \<and> h' p = Some (AddRunner r fns) \<and>
            (\<forall>q. q \<noteq> p \<longrightarrow> h' q = h q)) \<and>
      (\<exists>h'. OnClose_at h p cs = Some (p, h') \<and> h' p = Some (OnClose r cs) \<and>
            (\<forall>q. q \<noteq> p \<longrightarrow> h' q = h q)))"
  by (simp add: AddRunner_def OnClose_def AddRunner_at_def OnClose_at_def)

theorem AddRunner_OnClose_frame_witness:
  "(\<exists>h'. AddRunner_at (Map.empty(0 \<mapsto> New (NewConfig ''svc'' 8080) (Slog 0) [])) 0
            [RunFn 1 WhenDone] = Some (0, h') \<and>
         h' 0 = Some (AddRunner (New (NewConfig ''svc'' 8080) (Slog 0) []) [RunFn 1 WhenDone])) \<and>
   (\<exists>h'. OnClose_at (Map.empty(0 \<mapsto> New (NewConfig ''svc'' 8080) (Slog 0) [])) 0
            [closer (CloseFn 1 None)] = Some (0, h') \<and>
         h' 0 = Some (OnClose (New (NewConfig ''svc'' 8080) (Slog 0) []) [closer (CloseFn 1 None)])) \<and>
   runners (AddRunner (New (NewConfig ''svc'' 8080) (Slog 0) []) [RunFn 1 WhenDone]) =
     [RunFn 1 WhenDone] \<and>
   cleanup (OnClose (New (NewConfig ''svc'' 8080) (Slog 0) []) [closer (CloseFn 1 None)]) =
     [closer (CloseFn 1 None)]"
proof -
  have h: "(Map.empty(0 \<mapsto> New (NewConfig ''svc'' 8080) (Slog 0) [])) (0::nat) =
      Some (New (NewConfig ''svc'' 8080) (Slog 0) [])"
    by simp
  have n: "runners (New (NewConfig ''svc'' 8080) (Slog 0) []) = []"
    "cleanup (New (NewConfig ''svc'' 8080) (Slog 0) []) = []"
    by (simp_all add: New_def)
  show ?thesis
    using AddRunner_OnClose_frame [of "New (NewConfig ''svc'' 8080) (Slog 0) []"
        "[RunFn 1 WhenDone]" "[closer (CloseFn 1 None)]"
        "Map.empty(0 \<mapsto> New (NewConfig ''svc'' 8080) (Slog 0) [])" 0] h n
    by auto
qed

section \<open>The listener actor\<close>

text \<open>
  C4: when \<^verbatim>\<open>ListenAndServe\<close> ends with the error \<open>err\<close>, the listener's \<open>execute\<close>
  returns Success exactly when \<open>err\<close> is the server-closed condition; it returns
  Failure with cause \<open>e\<close> exactly when serving ended with \<open>e\<close> and \<open>e\<close> is not the
  server-closed condition; and the actor's outcome is that of its one call of
  \<^verbatim>\<open>ListenAndServe\<close>.
\<close>

theorem serve_outcome_failure_iff:
  "(serve_outcome (Some err) = None) = errors_Is err ErrServerClosed \<and>
   (serve_outcome res = Some e) = (res = Some e \<and> \<not> errors_Is e ErrServerClosed) \<and>
   execute w (HttpActor srv lg cfg) =
     map_option (\<lambda>res. ([Serve srv], serve_outcome res)) (ListenAndServe w)"
  by (auto simp: serve_outcome_def split: option.splits)

section \<open>The actor group's run\<close>

lemma those_map_Some: "those (map Some ys) = Some ys"
  by (induction ys) simp_all

lemma those_map_eq_Some: "those (map f xs) = Some ys \<longleftrightarrow> map f xs = map Some ys"
proof
  assume "map f xs = map Some ys"
  then show "those (map f xs) = Some ys"
    by (simp add: those_map_Some)
next
  assume "those (map f xs) = Some ys"
  then show "map f xs = map Some ys"
  proof (induction xs arbitrary: ys)
    case Nil
    then show ?case by simp
  next
    case (Cons x xs)
    then show ?case
      by (cases "f x"; cases "those (map f xs)") auto
  qed
qed

lemma those_map_returns:
  "\<forall>x \<in> set xs. f x \<noteq> None \<Longrightarrow> \<exists>ys. those (map f xs) = Some ys"
  by (induction xs) auto

lemma count_list_upt: "count_list [0..<n] i = (if i < n then 1 else 0)"
  by (induction n) auto

lemma count_list_filter: "count_list (filter P xs) x = (if P x then count_list xs x else 0)"
  by (induction xs) auto

lemma length_filter_neq_upt: "t < n \<Longrightarrow> length (filter (\<lambda>i. i \<noteq> t) [0..<n]) = n - 1"
proof (induction n)
  case 0
  then show ?case by simp
next
  case (Suc n)
  show ?case
  proof (cases "t = n")
    case True
    then have "filter (\<lambda>i. i \<noteq> t) [0..<n] = [0..<n]"
      by (auto intro: filter_True)
    with True show ?thesis by simp
  next
    case False
    with Suc show ?thesis by auto
  qed
qed

lemma Group_Run_SomeD:
  assumes "Group_Run w t g = Some res"
  shows "t < length g"
    and "map (execute w) g = map Some (executions res)"
    and "outcome res = snd (executions res ! t)"
    and "interrupts res =
           map (\<lambda>i. (i, interrupt (g ! i) (outcome res))) (filter (\<lambda>i. i \<noteq> t) [0..<length g])"
  using assms
  by (auto simp: Group_Run_def those_map_eq_Some split: option.splits if_splits)

lemma Group_Run_trigger:
  assumes "Group_Run w t g = Some res"
  shows "execute w (g ! t) = Some (executions res ! t)"
proof -
  have l: "t < length g" and m: "map (execute w) g = map Some (executions res)"
    using Group_Run_SomeD [OF assms] by auto
  have "length (executions res) = length g"
    using m by (metis length_map)
  then show ?thesis
    using l m by (metis nth_map)
qed

lemma Group_Run_returns:
  assumes "t < length g" and "\<forall>a \<in> set g. execute w a \<noteq> None"
  shows "\<exists>res. Group_Run w t g = Some res"
proof -
  obtain runs where "those (map (execute w) g) = Some runs"
    using those_map_returns [OF assms(2)] by blast
  then show ?thesis
    using assms(1) by (simp add: Group_Run_def)
qed

text \<open>
  C1: in a group of N actors that all return, with the actor at position \<open>t\<close> the
  first to return and \<open>out\<close> its outcome, \<open>Run\<close> returns \<open>out\<close>, \<open>interrupt\<close> is called
  once on each of the N - 1 other actors and not at all on the trigger, and every
  call is the actor's own \<open>interrupt\<close> with the outcome \<open>out\<close>.
\<close>

theorem Group_Run_interrupts_all_but_trigger:
  assumes "t < length g"
    and "\<forall>a \<in> set g. execute w a \<noteq> None"
    and "execute w (g ! t) = Some (evs, out)"
  shows "\<exists>res. Group_Run w t g = Some res \<and> outcome res = out \<and>
           (\<forall>i < length g. count_list (map fst (interrupts res)) i = (if i = t then 0 else 1)) \<and>
           length (interrupts res) = length g - 1 \<and>
           (\<forall>c \<in> set (interrupts res). fst c < length g \<and> snd c = interrupt (g ! fst c) out)"
proof -
  obtain res where res: "Group_Run w t g = Some res"
    using Group_Run_returns [OF assms(1,2)] by blast
  have out: "outcome res = out"
    using Group_Run_trigger [OF res] Group_Run_SomeD(3) [OF res] assms(3)
    by (metis option.inject snd_conv)
  have ints: "interrupts res =
      map (\<lambda>i. (i, interrupt (g ! i) out)) (filter (\<lambda>i. i \<noteq> t) [0..<length g])"
    using Group_Run_SomeD(4) [OF res] out by simp
  have fsts: "map fst (interrupts res) = filter (\<lambda>i. i \<noteq> t) [0..<length g]"
    unfolding ints by (simp add: comp_def)
  have count: "\<forall>i < length g. count_list (map fst (interrupts res)) i = (if i = t then 0 else 1)"
    unfolding fsts by (simp add: count_list_filter count_list_upt)
  have len: "length (interrupts res) = length g - 1"
    unfolding ints using assms(1) by (simp add: length_filter_neq_upt)
  have each: "\<forall>c \<in> set (interrupts res). fst c < length g \<and> snd c = interrupt (g ! fst c) out"
    unfolding ints by auto
  show ?thesis
    using res out count len each by blast
qed

section \<open>The actors of a run and what they do\<close>

lemma close_all_eq: "close_all w cs = map Closed cs"
proof (induction cs)
  case Nil
  show ?case by simp
next
  case (Cons c cs)
  then show ?case by (cases c) simp_all
qed

lemma execute_WatchActor:
  "execute w (WatchActor ctx srv cs) =
     (if fires ctx then Some (Closed srv # map Closed cs, None) else None)"
  by (cases srv) (simp_all add: close_all_eq)

lemma execute_RunFnActor:
  "execute w (RunFnActor runFn ctx) =
     (if RunFn_returns runFn ctx then Some ([Called runFn ctx], None) else None)"
  by simp

lemma foldl_Group_Add:
  "foldl (\<lambda>r' runFn. r'\<lparr>Group := Group_Add (Group r') (RunFnActor runFn ctx)\<rparr>) r fs =
     r\<lparr>Group := Group r @ map (\<lambda>runFn. RunFnActor runFn ctx) fs\<rparr>"
  by (induction fs arbitrary: r) (simp_all add: Group_Add_def)

lemma add_runFns_eq:
  "add_runFns ctx r = r\<lparr>Group := Group r @ map (\<lambda>runFn. RunFnActor runFn ctx) (runners r)\<rparr>"
  by (simp add: add_runFns_def foldl_Group_Add)

lemma Async_actors_eq:
  "Async_actors r ctx = r\<lparr>Group := Group r @ map (\<lambda>runFn. RunFnActor runFn ctx) (runners r)\<rparr>"
  by (simp add: Async_actors_def add_runFns_eq)

lemma Run_actors_testing:
  "forTesting r \<Longrightarrow>
   Run_actors r ctx mu =
     r\<lparr>Group := Group r @ WatchActor ctx NopCloser (cleanup r) #
                  map (\<lambda>runFn. RunFnActor runFn ctx) (runners r)\<rparr>"
  by (simp add: Run_actors_def startHttpServer_def add_runFns_eq Group_Add_def)

lemma Run_actors_serving:
  "\<not> forTesting r \<Longrightarrow>
   Run_actors r ctx mu =
     r\<lparr>Group := Group r @
         HttpActor \<lparr>Addr = addr (serverConfig r), Handler = mu\<rparr> (logger r) (serverConfig r) #
         WatchActor ctx (Server \<lparr>Addr = addr (serverConfig r), Handler = mu\<rparr>) (cleanup r) #
         map (\<lambda>runFn. RunFnActor runFn ctx) (runners r)\<rparr>"
  by (simp add: Run_actors_def startHttpServer_def add_runFns_eq Group_Add_def Let_def)

lemma Run_SomeD:
  assumes "Run w t r ctx mu = Some res"
  shows "receiver res = Run_actors r ctx mu"
    and "Group_Run w t (Group (Run_actors r ctx mu)) = Some (group_result res)"
    and "started res =
           [Log (logger (Run_actors r ctx mu)) Debug ''group runner start''
              (keyValues (Run_actors r ctx mu))]"
  using assms by (auto simp: Run_def Let_def split: option.splits)

lemma Async_SomeD:
  assumes "Async w t r ctx = Some res"
  shows "receiver res = Async_actors r ctx"
    and "Group_Run w t (Group (Async_actors r ctx)) = Some (group_result res)"
    and "started res =
           [Log (logger (Async_actors r ctx)) Debug ''async runner started''
              (keyValues (Async_actors r ctx))]"
  using assms by (auto simp: Async_def Let_def split: option.splits)

lemma executions_RunFnActors:
  "map (execute w) (map (\<lambda>runFn. RunFnActor runFn ctx) fs) = map Some ys \<Longrightarrow>
   ys = map (\<lambda>runFn. ([Called runFn ctx], None)) fs"
proof (induction fs arbitrary: ys)
  case Nil
  then show ?case by simp
next
  case (Cons f fs)
  then show ?case
    by (cases ys) (auto split: if_splits)
qed

lemma Run_executions_testing:
  assumes "Run w t r ctx mu = Some res" and "Group r = []" and "forTesting r"
  shows "fires ctx"
    and "executions (group_result res) =
           (Closed NopCloser # map Closed (cleanup r), None) #
           map (\<lambda>runFn. ([Called runFn ctx], None)) (runners r)"
proof -
  have m: "map (execute w) (WatchActor ctx NopCloser (cleanup r) #
             map (\<lambda>runFn. RunFnActor runFn ctx) (runners r)) =
           map Some (executions (group_result res))"
    using Group_Run_SomeD(2) [OF Run_SomeD(2) [OF assms(1)]] assms(2,3)
    by (simp add: Run_actors_testing)
  then obtain y ys where ys: "executions (group_result res) = y # ys"
    by (cases "executions (group_result res)") auto
  have y: "execute w (WatchActor ctx NopCloser (cleanup r)) = Some y"
    and rest: "map (execute w) (map (\<lambda>runFn. RunFnActor runFn ctx) (runners r)) = map Some ys"
    using m ys by auto
  show "fires ctx"
    using y by (simp add: execute_WatchActor split: if_splits)
  then have "y = (Closed NopCloser # map Closed (cleanup r), None)"
    using y by (auto simp: close_all_eq)
  then show "executions (group_result res) =
           (Closed NopCloser # map Closed (cleanup r), None) #
           map (\<lambda>runFn. ([Called runFn ctx], None)) (runners r)"
    using ys executions_RunFnActors [OF rest] by simp
qed

lemma Run_executions_serving:
  assumes "Run w t r ctx mu = Some res" and "Group r = []" and "\<not> forTesting r"
  shows "fires ctx"
    and "\<exists>sr. ListenAndServe w = Some sr \<and>
           executions (group_result res) =
             ([Serve \<lparr>Addr = addr (serverConfig r), Handler = mu\<rparr>], serve_outcome sr) #
             (Closed (Server \<lparr>Addr = addr (serverConfig r), Handler = mu\<rparr>) #
                map Closed (cleanup r), None) #
             map (\<lambda>runFn. ([Called runFn ctx], None)) (runners r)"
proof -
  let ?srv = "\<lparr>Addr = addr (serverConfig r), Handler = mu\<rparr>"
  have m: "map (execute w) (HttpActor ?srv (logger r) (serverConfig r) #
             WatchActor ctx (Server ?srv) (cleanup r) #
             map (\<lambda>runFn. RunFnActor runFn ctx) (runners r)) =
           map Some (executions (group_result res))"
    using Group_Run_SomeD(2) [OF Run_SomeD(2) [OF assms(1)]] assms(2,3)
    by (simp add: Run_actors_serving)
  then obtain x y ys where ys: "executions (group_result res) = x # y # ys"
    by (cases "executions (group_result res)"; cases "tl (executions (group_result res))") auto
  have x: "execute w (HttpActor ?srv (logger r) (serverConfig r)) = Some x"
    and y: "execute w (WatchActor ctx (Server ?srv) (cleanup r)) = Some y"
    and rest: "map (execute w) (map (\<lambda>runFn. RunFnActor runFn ctx) (runners r)) = map Some ys"
    using m ys by auto
  show f: "fires ctx"
    using y by (simp add: execute_WatchActor split: if_splits)
  have y': "y = (Closed (Server ?srv) # map Closed (cleanup r), None)"
    using y f by (auto simp: close_all_eq)
  obtain sr where sr: "ListenAndServe w = Some sr" and x': "x = ([Serve ?srv], serve_outcome sr)"
    using x by (auto split: option.splits)
  show "\<exists>sr. ListenAndServe w = Some sr \<and>
           executions (group_result res) =
             ([Serve ?srv], serve_outcome sr) #
             (Closed (Server ?srv) # map Closed (cleanup r), None) #
             map (\<lambda>runFn. ([Called runFn ctx], None)) (runners r)"
    using sr x' y' ys executions_RunFnActors [OF rest] by simp
qed

lemma filter_is_Closed_map_Closed: "filter is_Closed (map Closed cs) = map Closed cs"
  by (induction cs) simp_all

lemma filter_is_Serve_map_Closed: "filter is_Serve (map Closed cs) = []"
  by (induction cs) simp_all

lemma filter_is_Closed_Called:
  "filter is_Closed (concat (map fst (map (\<lambda>runFn. ([Called runFn ctx], out)) fs))) = []"
  by (induction fs) simp_all

lemma filter_is_Serve_Called:
  "filter is_Serve (concat (map fst (map (\<lambda>runFn. ([Called runFn ctx], out)) fs))) = []"
  by (induction fs) simp_all

lemma Run_actors_frame:
  "serverConfig (Run_actors r ctx mu) = serverConfig r"
  "logger (Run_actors r ctx mu) = logger r"
  "runners (Run_actors r ctx mu) = runners r"
  "cleanup (Run_actors r ctx mu) = cleanup r"
  "forTesting (Run_actors r ctx mu) = forTesting r"
  by (cases "forTesting r"; simp add: Run_actors_testing Run_actors_serving)+

lemma Group_Run_failure_trigger:
  assumes "Group_Run w t g = Some res" and "outcome res = Some e"
  shows "is_HttpActor (g ! t)"
proof -
  obtain evs where "execute w (g ! t) = Some (evs, Some e)"
    using Group_Run_trigger [OF assms(1)] Group_Run_SomeD(3) [OF assms(1)] assms(2)
    by (cases "executions res ! t") auto
  then show ?thesis
    by (cases "g ! t")
      (auto simp del: execute.simps simp add: execute_WatchActor execute_RunFnActor
        split: if_splits)
qed

lemma Run_returns:
  assumes "fires ctx" and "forTesting r \<or> ListenAndServe w \<noteq> None"
    and "\<forall>runFn \<in> set (runners r). RunFn_returns runFn ctx"
    and "Group r = []" and "t < length (Group (Run_actors r ctx mu))"
  shows "\<exists>res. Run w t r ctx mu = Some res"
proof -
  have "\<forall>a \<in> set (Group (Run_actors r ctx mu)). execute w a \<noteq> None"
    using assms(1-4)
    by (cases "forTesting r")
      (auto simp: Run_actors_testing Run_actors_serving execute_WatchActor)
  then obtain g where "Group_Run w t (Group (Run_actors r ctx mu)) = Some g"
    using Group_Run_returns [OF assms(5)] by blast
  then show ?thesis
    by (cases "outcome g") (simp_all add: Run_def Let_def)
qed

lemma example_runner_fields:
  "Group (example_runner ts) = []"
  "runners (example_runner ts) = [RunFn 1 WhenDone]"
  "cleanup (example_runner ts) = example_cleanups"
  "logger (example_runner ts) = Slog 0"
  "serverConfig (example_runner ts) = NewConfig ''svc'' 8080"
  "forTesting (example_runner ts) = (if length ts = 1 then ts ! 0 else False)"
  by (simp_all add: example_runner_def OnClose_def AddRunner_def New_def)

lemma Run_example_serving:
  "Run world_closed 1 (example_runner []) (Ctx True) (Mux 0) =
     Some \<lparr>receiver = (example_runner [])\<lparr>Group :=
                [HttpActor example_server (Slog 0) (NewConfig ''svc'' 8080),
                 WatchActor (Ctx True) (Server example_server) example_cleanups,
                 RunFnActor (RunFn 1 WhenDone) (Ctx True)]\<rparr>,
           started = [Log (Slog 0) Debug ''group runner start'' []],
           group_result =
             \<lparr>outcome = None,
              executions =
                [([Serve example_server], None),
                 (Closed (Server example_server) # map Closed example_cleanups, None),
                 ([Called (RunFn 1 WhenDone) (Ctx True)], None)],
              interrupts = [(0, []), (2, [])]\<rparr>,
           finished = [], status = Returned\<rparr>"
  by (simp add: Run_def Run_actors_serving example_runner_fields Group_Run_def keyValues_def
      world_closed_def serve_outcome_def close_all_eq example_server_def Let_def upt_rec
      addr_examples [THEN conjunct1])

section \<open>Shutdown on cancellation\<close>

text \<open>
  C2: the actor that waits for the context returns exactly when the context is
  cancelled; it then has closed the listener first and after it every registered
  cleanup once, in registration order, whatever error a \<open>Close\<close> returned, and its
  outcome is Success. For a runner with no actors yet, a call of \<open>Run\<close> that comes to
  its end has that actor among its actors, the context was cancelled, the actor's
  execution is the one just described, and these are all the \<open>Close\<close> calls of the
  run.
\<close>

theorem Run_closes_listener_then_cleanups_in_order:
  "execute w (WatchActor ctx srv cs) =
     (if fires ctx then Some (Closed srv # map Closed cs, None) else None) \<and>
   (Run w t r ctx mu = Some res \<longrightarrow> Group r = [] \<longrightarrow>
      fires ctx \<and>
      Group (receiver res) ! (if forTesting r then 0 else 1) =
        WatchActor ctx (snd (startHttpServer r mu)) (cleanup r) \<and>
      executions (group_result res) ! (if forTesting r then 0 else 1) =
        (Closed (snd (startHttpServer r mu)) # map Closed (cleanup r), None) \<and>
      filter is_Closed (all_events (group_result res)) =
        Closed (snd (startHttpServer r mu)) # map Closed (cleanup r))"
proof (intro conjI impI)
  show "execute w (WatchActor ctx srv cs) =
     (if fires ctx then Some (Closed srv # map Closed cs, None) else None)"
    by (rule execute_WatchActor)
next
  assume run: "Run w t r ctx mu = Some res" and fresh: "Group r = []"
  show "fires ctx"
    using Run_executions_testing(1) [OF run fresh] Run_executions_serving(1) [OF run fresh]
    by blast
  show "Group (receiver res) ! (if forTesting r then 0 else 1) =
        WatchActor ctx (snd (startHttpServer r mu)) (cleanup r)"
    using Run_SomeD(1) [OF run] fresh
    by (cases "forTesting r")
      (simp_all add: Run_actors_testing Run_actors_serving startHttpServer_def Let_def)
  show "executions (group_result res) ! (if forTesting r then 0 else 1) =
        (Closed (snd (startHttpServer r mu)) # map Closed (cleanup r), None)"
  proof (cases "forTesting r")
    case True
    then show ?thesis
      using Run_executions_testing(2) [OF run fresh] by (simp add: startHttpServer_def)
  next
    case False
    then show ?thesis
      using Run_executions_serving(2) [OF run fresh]
      by (auto simp: startHttpServer_def Let_def)
  qed
  show "filter is_Closed (all_events (group_result res)) =
        Closed (snd (startHttpServer r mu)) # map Closed (cleanup r)"
  proof (cases "forTesting r")
    case True
    then show ?thesis
      using Run_executions_testing(2) [OF run fresh]
      by (simp add: startHttpServer_def all_events_def filter_is_Closed_map_Closed
          filter_is_Closed_Called)
  next
    case False
    then show ?thesis
      using Run_executions_serving(2) [OF run fresh]
      by (auto simp: startHttpServer_def Let_def all_events_def filter_is_Closed_map_Closed
          filter_is_Closed_Called)
  qed
qed

theorem Run_closes_listener_then_cleanups_in_order_witness:
  "(\<exists>res. Run world_closed 1 (example_runner []) (Ctx True) (Mux 0) = Some res \<and>
      Group (example_runner []) = [] \<and>
      executions (group_result res) ! 1 =
        ([Closed (Server example_server),
          Closed (closer (CloseFn 1 (Some (ErrOther ''connection lost'')))),
          Closed (closer (CloseFn 2 None))], None) \<and>
      filter is_Closed (all_events (group_result res)) =
        [Closed (Server example_server),
         Closed (closer (CloseFn 1 (Some (ErrOther ''connection lost'')))),
         Closed (closer (CloseFn 2 None))])"
proof -
  obtain res where run: "Run world_closed 1 (example_runner []) (Ctx True) (Mux 0) = Some res"
    using Run_example_serving by blast
  have fresh: "Group (example_runner []) = []"
    by (simp add: example_runner_fields)
  have srv: "snd (startHttpServer (example_runner []) (Mux 0)) = Server example_server"
    by (simp add: startHttpServer_def example_runner_fields Let_def example_server_def
        addr_examples [THEN conjunct1])
  show ?thesis
    using Run_closes_listener_then_cleanups_in_order
      [of world_closed "Ctx True" NopCloser "[]" 1 "example_runner []" "Mux 0" res]
      run fresh srv
    by (simp add: example_runner_fields example_cleanups_def Closer_def)
qed

lemma Async_actors_frame:
  "serverConfig (Async_actors r ctx) = serverConfig r"
  "logger (Async_actors r ctx) = logger r"
  "runners (Async_actors r ctx) = runners r"
  "cleanup (Async_actors r ctx) = cleanup r"
  "forTesting (Async_actors r ctx) = forTesting r"
  by (simp_all add: Async_actors_eq)

lemma Async_executions:
  assumes "Async w t r ctx = Some res" and "Group r = []"
  shows "executions (group_result res) = map (\<lambda>runFn. ([Called runFn ctx], None)) (runners r)"
proof -
  have "map (execute w) (map (\<lambda>runFn. RunFnActor runFn ctx) (runners r)) =
          map Some (executions (group_result res))"
    using Group_Run_SomeD(2) [OF Async_SomeD(2) [OF assms(1)]] assms(2)
    by (simp add: Async_actors_eq)
  then show ?thesis
    by (rule executions_RunFnActors)
qed

section \<open>Background functions\<close>

text \<open>
  C5: the actor of a background function calls the function with the context and,
  when the call returns, returns Success; \<open>Async\<close> and \<open>Run\<close> add one such actor for
  every registered function, in order. So in a call of \<open>Run\<close> or \<open>Async\<close> that comes
  to its end, a trigger that is a background function's actor gives the outcome
  Success, and an outcome that is a Failure has a listener actor as its trigger; a
  call of \<open>Async\<close> on a runner with no actors yet always has the outcome Success.
\<close>

theorem background_function_return_is_success:
  "execute w (RunFnActor runFn ctx) =
     (if RunFn_returns runFn ctx then Some ([Called runFn ctx], None) else None) \<and>
   Group (Async_actors r ctx) = Group r @ map (\<lambda>runFn. RunFnActor runFn ctx) (runners r) \<and>
   drop (length (Group r) + (if forTesting r then 1 else 2)) (Group (Run_actors r ctx mu)) =
     map (\<lambda>runFn. RunFnActor runFn ctx) (runners r) \<and>
   (Run w t r ctx mu = Some res \<longrightarrow>
      (\<forall>e. outcome (group_result res) = Some e \<longrightarrow> is_HttpActor (Group (receiver res) ! t)) \<and>
      (\<forall>f c. Group (receiver res) ! t = RunFnActor f c \<longrightarrow> outcome (group_result res) = None)) \<and>
   (Async w t r ctx = Some res' \<longrightarrow>
      (\<forall>e. outcome (group_result res') = Some e \<longrightarrow> is_HttpActor (Group (receiver res') ! t)) \<and>
      (\<forall>f c. Group (receiver res') ! t = RunFnActor f c \<longrightarrow> outcome (group_result res') = None) \<and>
      (Group r = [] \<longrightarrow> outcome (group_result res') = None))"
proof -
  have a: "execute w (RunFnActor runFn ctx) =
     (if RunFn_returns runFn ctx then Some ([Called runFn ctx], None) else None)"
    by (rule execute_RunFnActor)
  have b: "Group (Async_actors r ctx) = Group r @ map (\<lambda>runFn. RunFnActor runFn ctx) (runners r)"
    by (simp add: Async_actors_eq)
  have c: "drop (length (Group r) + (if forTesting r then 1 else 2)) (Group (Run_actors r ctx mu)) =
     map (\<lambda>runFn. RunFnActor runFn ctx) (runners r)"
    by (cases "forTesting r") (simp_all add: Run_actors_testing Run_actors_serving)
  have d: "is_HttpActor (Group (receiver res) ! t)"
    if "Run w t r ctx mu = Some res" and "outcome (group_result res) = Some e" for e
    using Group_Run_failure_trigger [OF Run_SomeD(2) [OF that(1)] that(2)] Run_SomeD(1) [OF that(1)]
    by simp
  have d': "outcome (group_result res) = None"
    if "Run w t r ctx mu = Some res" and "Group (receiver res) ! t = RunFnActor f c" for f c
    using d [OF that(1)] that(2) by (cases "outcome (group_result res)") auto
  have e: "is_HttpActor (Group (receiver res') ! t)"
    if "Async w t r ctx = Some res'" and "outcome (group_result res') = Some e" for e
    using Group_Run_failure_trigger [OF Async_SomeD(2) [OF that(1)] that(2)]
      Async_SomeD(1) [OF that(1)]
    by simp
  have e': "outcome (group_result res') = None"
    if "Async w t r ctx = Some res'" and "Group (receiver res') ! t = RunFnActor f c" for f c
    using e [OF that(1)] that(2) by (cases "outcome (group_result res')") auto
  have f: "outcome (group_result res') = None"
    if run: "Async w t r ctx = Some res'" and fresh: "Group r = []"
  proof -
    have "t < length (runners r)"
      using Group_Run_SomeD(1) [OF Async_SomeD(2) [OF run]] fresh
      by (simp add: Async_actors_eq)
    then show ?thesis
      using Group_Run_SomeD(3) [OF Async_SomeD(2) [OF run]] Async_executions [OF run fresh]
      by simp
  qed
  show ?thesis
    using a b c d d' e e' f by blast
qed

section \<open>The end of a run\<close>

lemma Run_of_group_result:
  assumes "Group_Run w t (Group (Run_actors r ctx mu)) = Some g"
  shows "Run w t r ctx mu =
           Some \<lparr>receiver = Run_actors r ctx mu,
                 started = [Log (logger r) Debug ''group runner start'' (keyValues r)],
                 group_result = g,
                 finished =
                   (case outcome g of
                      Some err \<Rightarrow>
                        [Log (logger r) Error ''group runner failure''
                           [Str ''mode'', Str ''sync'', Str ''err'', Err err], Exit 1]
                    | None \<Rightarrow> []),
                 status = (case outcome g of Some err \<Rightarrow> Exited 1 | None \<Rightarrow> Returned)\<rparr>"
  using assms
  by (cases "outcome g") (simp_all add: Run_def Let_def Run_actors_frame keyValues_def)

lemma Async_of_group_result:
  assumes "Group_Run w t (Group (Async_actors r ctx)) = Some g"
  shows "Async w t r ctx =
           Some \<lparr>receiver = Async_actors r ctx,
                 started = [Log (logger r) Debug ''async runner started'' (keyValues r)],
                 group_result = g,
                 finished =
                   (case outcome g of
                      Some err \<Rightarrow>
                        [Log (logger r) Error ''group runner failure''
                           [Str ''mode'', Str ''async'', Str ''err'', Err err], Exit 1]
                    | None \<Rightarrow> []),
                 status = (case outcome g of Some err \<Rightarrow> Exited 1 | None \<Rightarrow> Returned)\<rparr>"
  using assms
  by (cases "outcome g") (simp_all add: Async_def Let_def Async_actors_frame keyValues_def)

lemma Run_None_iff: "Run w t r ctx mu = None \<longleftrightarrow> Group_Run w t (Group (Run_actors r ctx mu)) = None"
  by (auto simp: Run_def Let_def split: option.splits)

lemma Async_None_iff: "Async w t r ctx = None \<longleftrightarrow> Group_Run w t (Group (Async_actors r ctx)) = None"
  by (auto simp: Async_def Let_def split: option.splits)

text \<open>
  C6: when the group of \<open>Run\<close> or of \<open>Async\<close> returns, the call comes to its end
  with that outcome: with a Failure it logs the cause at error severity ("group
  runner failure", with the mode and the cause) and then \<^verbatim>\<open>os.Exit(1)\<close> ends the
  process with the status 1; with Success it logs nothing more and returns. The call
  does not come to its end only when the group does not return.
\<close>

theorem failure_is_logged_then_exit_1:
  "(Group_Run w t (Group (Run_actors r ctx mu)) = Some g \<longrightarrow>
      (\<exists>res. Run w t r ctx mu = Some res \<and> group_result res = g \<and>
         (case outcome g of
            Some err \<Rightarrow>
              finished res =
                [Log (logger r) Error ''group runner failure''
                   [Str ''mode'', Str ''sync'', Str ''err'', Err err], Exit 1] \<and>
              status res = Exited 1
          | None \<Rightarrow> finished res = [] \<and> status res = Returned))) \<and>
   (Group_Run w t (Group (Async_actors r ctx)) = Some g' \<longrightarrow>
      (\<exists>res. Async w t r ctx = Some res \<and> group_result res = g' \<and>
         (case outcome g' of
            Some err \<Rightarrow>
              finished res =
                [Log (logger r) Error ''group runner failure''
                   [Str ''mode'', Str ''async'', Str ''err'', Err err], Exit 1] \<and>
              status res = Exited 1
          | None \<Rightarrow> finished res = [] \<and> status res = Returned))) \<and>
   (Run w t r ctx mu = None) = (Group_Run w t (Group (Run_actors r ctx mu)) = None) \<and>
   (Async w t r ctx = None) = (Group_Run w t (Group (Async_actors r ctx)) = None)"
proof (intro conjI impI)
  assume g: "Group_Run w t (Group (Run_actors r ctx mu)) = Some g"
  show "\<exists>res. Run w t r ctx mu = Some res \<and> group_result res = g \<and>
         (case outcome g of
            Some err \<Rightarrow>
              finished res =
                [Log (logger r) Error ''group runner failure''
                   [Str ''mode'', Str ''sync'', Str ''err'', Err err], Exit 1] \<and>
              status res = Exited 1
          | None \<Rightarrow> finished res = [] \<and> status res = Returned)"
    unfolding Run_of_group_result [OF g] by (simp split: option.splits)
next
  assume g: "Group_Run w t (Group (Async_actors r ctx)) = Some g'"
  show "\<exists>res. Async w t r ctx = Some res \<and> group_result res = g' \<and>
         (case outcome g' of
            Some err \<Rightarrow>
              finished res =
                [Log (logger r) Error ''group runner failure''
                   [Str ''mode'', Str ''async'', Str ''err'', Err err], Exit 1] \<and>
              status res = Exited 1
          | None \<Rightarrow> finished res = [] \<and> status res = Returned)"
    unfolding Async_of_group_result [OF g] by (simp split: option.splits)
next
  show "(Run w t r ctx mu = None) = (Group_Run w t (Group (Run_actors r ctx mu)) = None)"
    by (rule Run_None_iff)
  show "(Async w t r ctx = None) = (Group_Run w t (Group (Async_actors r ctx)) = None)"
    by (rule Async_None_iff)
qed

section \<open>Testing mode\<close>

text \<open>
  C7: in testing mode \<open>startHttpServer\<close> adds no actor and returns the no-op closer,
  whose \<open>Close\<close> returns nil, so the actors of \<open>Run\<close> are the actor that waits for the
  context and the background actors. A call of \<open>Run\<close> that comes to its end has no
  \<^verbatim>\<open>ListenAndServe\<close> call, and closes the no-op closer, then the cleanups in
  registration order, and calls the background functions: what the same runner
  does outside testing mode after its listener actor, with the server in the place
  of the no-op closer.
\<close>

theorem testing_mode_binds_no_listener:
  "forTesting r \<longrightarrow>
     startHttpServer r mu = (r, NopCloser) \<and>
     Close w NopCloser = ([Closed NopCloser], None) \<and>
     Group (Run_actors r ctx mu) =
       Group r @ WatchActor ctx NopCloser (cleanup r) #
         map (\<lambda>runFn. RunFnActor runFn ctx) (runners r) \<and>
     (\<forall>res. Run w t r ctx mu = Some res \<longrightarrow> Group r = [] \<longrightarrow>
        filter is_Serve (all_events (group_result res)) = [] \<and>
        executions (group_result res) =
          (Closed NopCloser # map Closed (cleanup r), None) #
          map (\<lambda>runFn. ([Called runFn ctx], None)) (runners r)) \<and>
     (\<forall>res'. Run w t' (r\<lparr>forTesting := False\<rparr>) ctx mu = Some res' \<longrightarrow> Group r = [] \<longrightarrow>
        drop 1 (executions (group_result res')) =
          (Closed (Server \<lparr>Addr = addr (serverConfig r), Handler = mu\<rparr>) #
             map Closed (cleanup r), None) #
          map (\<lambda>runFn. ([Called runFn ctx], None)) (runners r))"
proof (intro impI conjI allI)
  assume testing: "forTesting r"
  show "startHttpServer r mu = (r, NopCloser)"
    using testing by (simp add: startHttpServer_def)
  show "Close w NopCloser = ([Closed NopCloser], None)"
    by simp
  show "Group (Run_actors r ctx mu) =
       Group r @ WatchActor ctx NopCloser (cleanup r) #
         map (\<lambda>runFn. RunFnActor runFn ctx) (runners r)"
    using testing by (simp add: Run_actors_testing)
next
  fix res
  assume testing: "forTesting r" and run: "Run w t r ctx mu = Some res" and fresh: "Group r = []"
  show "executions (group_result res) =
          (Closed NopCloser # map Closed (cleanup r), None) #
          map (\<lambda>runFn. ([Called runFn ctx], None)) (runners r)"
    using Run_executions_testing(2) [OF run fresh testing] .
  then show "filter is_Serve (all_events (group_result res)) = []"
    by (simp add: all_events_def filter_is_Serve_map_Closed filter_is_Serve_Called)
next
  fix res'
  assume run: "Run w t' (r\<lparr>forTesting := False\<rparr>) ctx mu = Some res'" and fresh: "Group r = []"
  show "drop 1 (executions (group_result res')) =
          (Closed (Server \<lparr>Addr = addr (serverConfig r), Handler = mu\<rparr>) #
             map Closed (cleanup r), None) #
          map (\<lambda>runFn. ([Called runFn ctx], None)) (runners r)"
    using Run_executions_serving(2) [OF run] fresh by auto
qed

section \<open>The example runs\<close>

lemma Run_example_in_use:
  "Run world_in_use 0 (example_runner []) (Ctx True) (Mux 0) =
     Some \<lparr>receiver = (example_runner [])\<lparr>Group := example_group\<rparr>,
           started = [Log (Slog 0) Debug ''group runner start'' []],
           group_result =
             \<lparr>outcome = Some (ErrOther ''address in use''),
              executions =
                [([Serve example_server], Some (ErrOther ''address in use'')),
                 (Closed (Server example_server) # map Closed example_cleanups, None),
                 ([Called (RunFn 1 WhenDone) (Ctx True)], None)],
              interrupts = [(1, []), (2, [])]\<rparr>,
           finished =
             [Log (Slog 0) Error ''group runner failure''
                [Str ''mode'', Str ''sync'', Str ''err'', Err (ErrOther ''address in use'')],
              Exit 1],
           status = Exited 1\<rparr>"
  by (simp add: Run_def Run_actors_serving example_runner_fields Group_Run_def keyValues_def
      world_in_use_def serve_outcome_def close_all_eq example_server_def Let_def upt_rec
      example_group_def addr_examples [THEN conjunct1])

lemma Run_example_testing:
  "Run world_closed 0 (example_runner [True]) (Ctx True) (Mux 0) =
     Some \<lparr>receiver = (example_runner [True])\<lparr>Group :=
                [WatchActor (Ctx True) NopCloser example_cleanups,
                 RunFnActor (RunFn 1 WhenDone) (Ctx True)]\<rparr>,
           started = [Log (Slog 0) Debug ''group runner start''
                        [Str ''TESTING-MODE'', Str ''ON'']],
           group_result =
             \<lparr>outcome = None,
              executions =
                [(Closed NopCloser # map Closed example_cleanups, None),
                 ([Called (RunFn 1 WhenDone) (Ctx True)], None)],
              interrupts = [(1, [])]\<rparr>,
           finished = [], status = Returned\<rparr>"
  by (simp add: Run_def Run_actors_testing example_runner_fields Group_Run_def keyValues_def
      world_closed_def close_all_eq Let_def upt_rec)

lemma Async_example:
  "Async world_closed 0 (example_runner []) (Ctx True) =
     Some \<lparr>receiver = (example_runner [])\<lparr>Group := [RunFnActor (RunFn 1 WhenDone) (Ctx True)]\<rparr>,
           started = [Log (Slog 0) Debug ''async runner started'' []],
           group_result =
             \<lparr>outcome = None,
              executions = [([Called (RunFn 1 WhenDone) (Ctx True)], None)],
              interrupts = []\<rparr>,
           finished = [], status = Returned\<rparr>"
  by (simp add: Async_def Async_actors_eq example_runner_fields Group_Run_def keyValues_def
      Let_def upt_rec)

lemma example_group_executes:
  "execute world_in_use (example_group ! 0) =
     Some ([Serve example_server], Some (ErrOther ''address in use''))"
  "\<forall>a \<in> set example_group. execute world_in_use a \<noteq> None"
  "length example_group = 3"
  by (simp_all add: example_group_def world_in_use_def serve_outcome_def)

theorem Group_Run_interrupts_all_but_trigger_witness:
  "\<exists>res. Group_Run world_in_use 0 example_group = Some res \<and>
         outcome res = Some (ErrOther ''address in use'') \<and>
         count_list (map fst (interrupts res)) 0 = 0 \<and>
         count_list (map fst (interrupts res)) 1 = 1 \<and>
         count_list (map fst (interrupts res)) 2 = 1 \<and>
         length (interrupts res) = 2"
proof -
  have t: "0 < length example_group"
    by (simp add: example_group_executes)
  obtain res where res: "Group_Run world_in_use 0 example_group = Some res"
    and out: "outcome res = Some (ErrOther ''address in use'')"
    and count: "\<forall>i < length example_group.
                  count_list (map fst (interrupts res)) i = (if i = 0 then 0 else 1)"
    and len: "length (interrupts res) = length example_group - 1"
    using Group_Run_interrupts_all_but_trigger
      [OF t example_group_executes(2) example_group_executes(1)]
    by blast
  have "count_list (map fst (interrupts res)) 0 = 0"
    and "count_list (map fst (interrupts res)) 1 = 1"
    and "count_list (map fst (interrupts res)) 2 = 1"
    using count by (simp_all add: example_group_executes)
  then show ?thesis
    using res out len by (simp add: example_group_executes)
qed

theorem background_function_return_is_success_witness:
  "(\<exists>res. Run world_in_use 0 (example_runner []) (Ctx True) (Mux 0) = Some res \<and>
      outcome (group_result res) = Some (ErrOther ''address in use'') \<and>
      is_HttpActor (Group (receiver res) ! 0)) \<and>
   (\<exists>res. Run world_closed 2 (example_runner []) (Ctx True) (Mux 0) = Some res \<and>
      Group (receiver res) ! 2 = RunFnActor (RunFn 1 WhenDone) (Ctx True) \<and>
      outcome (group_result res) = None) \<and>
   (\<exists>res. Async world_closed 0 (example_runner []) (Ctx True) = Some res \<and>
      Group (example_runner []) = [] \<and> outcome (group_result res) = None)"
proof -
  obtain res1 where r1: "Run world_in_use 0 (example_runner []) (Ctx True) (Mux 0) = Some res1"
    using Run_example_in_use by blast
  have o1: "outcome (group_result res1) = Some (ErrOther ''address in use'')"
    using r1 by (auto simp: Run_example_in_use)
  have g1: "Group (receiver res1) = example_group"
    using r1 by (auto simp: Run_example_in_use)
  obtain res2 where r2: "Run world_closed 2 (example_runner []) (Ctx True) (Mux 0) = Some res2"
    using Run_returns [of "Ctx True" "example_runner []" world_closed 2 "Mux 0"]
    by (auto simp: example_runner_fields Run_actors_serving world_closed_def)
  have g2: "Group (receiver res2) ! 2 = RunFnActor (RunFn 1 WhenDone) (Ctx True)"
    using Run_SomeD(1) [OF r2] by (simp add: Run_actors_serving example_runner_fields)
  obtain res3 where r3: "Async world_closed 0 (example_runner []) (Ctx True) = Some res3"
    using Async_example by blast
  have fresh: "Group (example_runner []) = []"
    by (simp add: example_runner_fields)
  show ?thesis
    using background_function_return_is_success
      [of world_in_use "RunFn 1 WhenDone" "Ctx True" "example_runner []" "Mux 0" 0 res1 res3]
      background_function_return_is_success
      [of world_closed "RunFn 1 WhenDone" "Ctx True" "example_runner []" "Mux 0" 2 res2 res3]
      background_function_return_is_success
      [of world_closed "RunFn 1 WhenDone" "Ctx True" "example_runner []" "Mux 0" 0 res1 res3]
      r1 o1 r2 g2 r3 fresh
    by auto
qed

lemma example_groups_run:
  "Group_Run world_in_use 0 (Group (Run_actors (example_runner []) (Ctx True) (Mux 0))) =
     Some \<lparr>outcome = Some (ErrOther ''address in use''),
           executions =
             [([Serve example_server], Some (ErrOther ''address in use'')),
              (Closed (Server example_server) # map Closed example_cleanups, None),
              ([Called (RunFn 1 WhenDone) (Ctx True)], None)],
           interrupts = [(1, []), (2, [])]\<rparr>"
  "Group_Run world_closed 1 (Group (Run_actors (example_runner []) (Ctx True) (Mux 0))) =
     Some \<lparr>outcome = None,
           executions =
             [([Serve example_server], None),
              (Closed (Server example_server) # map Closed example_cleanups, None),
              ([Called (RunFn 1 WhenDone) (Ctx True)], None)],
           interrupts = [(0, []), (2, [])]\<rparr>"
  "Group_Run world_closed 0 (Group (Async_actors (example_runner []) (Ctx True))) =
     Some \<lparr>outcome = None,
           executions = [([Called (RunFn 1 WhenDone) (Ctx True)], None)],
           interrupts = []\<rparr>"
  "Group_Run world_in_use 0
       (Group (Async_actors ((example_runner [])\<lparr>Group := example_group\<rparr>) (Ctx True))) =
     Some \<lparr>outcome = Some (ErrOther ''address in use''),
           executions =
             [([Serve example_server], Some (ErrOther ''address in use'')),
              (Closed (Server example_server) # map Closed example_cleanups, None),
              ([Called (RunFn 1 WhenDone) (Ctx True)], None),
              ([Called (RunFn 1 WhenDone) (Ctx True)], None)],
           interrupts = [(1, []), (2, []), (3, [])]\<rparr>"
  by (simp_all add: Run_actors_serving Async_actors_eq example_runner_fields Group_Run_def
      world_in_use_def world_closed_def serve_outcome_def close_all_eq example_server_def
      example_group_def upt_rec addr_examples [THEN conjunct1])

text \<open>
  The four ends at the example runner. On a runner with no actors yet the group of
  \<open>Async\<close> has background actors only and never fails, so the Failure of \<open>Async\<close>
  is shown on the runner as an earlier \<open>Run\<close> leaves it, with the listener actor in
  its group.
\<close>

theorem failure_is_logged_then_exit_1_witness:
  "(\<exists>res. Run world_in_use 0 (example_runner []) (Ctx True) (Mux 0) = Some res \<and>
      outcome (group_result res) = Some (ErrOther ''address in use'') \<and>
      finished res =
        [Log (Slog 0) Error ''group runner failure''
           [Str ''mode'', Str ''sync'', Str ''err'', Err (ErrOther ''address in use'')],
         Exit 1] \<and>
      status res = Exited 1) \<and>
   (\<exists>res. Run world_closed 1 (example_runner []) (Ctx True) (Mux 0) = Some res \<and>
      outcome (group_result res) = None \<and> finished res = [] \<and> status res = Returned) \<and>
   (\<exists>res. Async world_closed 0 (example_runner []) (Ctx True) = Some res \<and>
      outcome (group_result res) = None \<and> finished res = [] \<and> status res = Returned) \<and>
   (\<exists>res. Async world_in_use 0 ((example_runner [])\<lparr>Group := example_group\<rparr>) (Ctx True) =
        Some res \<and>
      outcome (group_result res) = Some (ErrOther ''address in use'') \<and>
      finished res =
        [Log (Slog 0) Error ''group runner failure''
           [Str ''mode'', Str ''async'', Str ''err'', Err (ErrOther ''address in use'')],
         Exit 1] \<and>
      status res = Exited 1)"
proof -
  have lg: "logger (example_runner []) = Slog 0"
    "logger ((example_runner [])\<lparr>Group := example_group\<rparr>) = Slog 0"
    by (simp_all add: example_runner_fields)
  have a: "\<exists>res. Run world_in_use 0 (example_runner []) (Ctx True) (Mux 0) = Some res \<and>
      outcome (group_result res) = Some (ErrOther ''address in use'') \<and>
      finished res =
        [Log (Slog 0) Error ''group runner failure''
           [Str ''mode'', Str ''sync'', Str ''err'', Err (ErrOther ''address in use'')],
         Exit 1] \<and>
      status res = Exited 1"
    using failure_is_logged_then_exit_1
      [THEN conjunct1, rule_format, OF example_groups_run(1)] lg
    by auto
  have b: "\<exists>res. Run world_closed 1 (example_runner []) (Ctx True) (Mux 0) = Some res \<and>
      outcome (group_result res) = None \<and> finished res = [] \<and> status res = Returned"
    using failure_is_logged_then_exit_1
      [THEN conjunct1, rule_format, OF example_groups_run(2)]
    by auto
  have c: "\<exists>res. Async world_closed 0 (example_runner []) (Ctx True) = Some res \<and>
      outcome (group_result res) = None \<and> finished res = [] \<and> status res = Returned"
    using failure_is_logged_then_exit_1
      [THEN conjunct2, THEN conjunct1, rule_format, OF example_groups_run(3)]
    by auto
  have d: "\<exists>res. Async world_in_use 0 ((example_runner [])\<lparr>Group := example_group\<rparr>) (Ctx True) =
        Some res \<and>
      outcome (group_result res) = Some (ErrOther ''address in use'') \<and>
      finished res =
        [Log (Slog 0) Error ''group runner failure''
           [Str ''mode'', Str ''async'', Str ''err'', Err (ErrOther ''address in use'')],
         Exit 1] \<and>
      status res = Exited 1"
    using failure_is_logged_then_exit_1
      [THEN conjunct2, THEN conjunct1, rule_format, OF example_groups_run(4)] lg
    by auto
  show ?thesis
    using a b c d by blast
qed

theorem testing_mode_binds_no_listener_witness:
  "forTesting (example_runner [True]) \<and>
   startHttpServer (example_runner [True]) (Mux 0) = (example_runner [True], NopCloser) \<and>
   (\<exists>res. Run world_closed 0 (example_runner [True]) (Ctx True) (Mux 0) = Some res \<and>
      Group (example_runner [True]) = [] \<and>
      filter is_Serve (all_events (group_result res)) = [] \<and>
      executions (group_result res) =
        [(Closed NopCloser # map Closed example_cleanups, None),
         ([Called (RunFn 1 WhenDone) (Ctx True)], None)]) \<and>
   (\<exists>res'. Run world_closed 1 ((example_runner [True])\<lparr>forTesting := False\<rparr>) (Ctx True) (Mux 0) =
        Some res' \<and>
      drop 1 (executions (group_result res')) =
        [(Closed (Server example_server) # map Closed example_cleanups, None),
         ([Called (RunFn 1 WhenDone) (Ctx True)], None)])"
proof -
  have testing: "forTesting (example_runner [True])"
    by (simp add: example_runner_fields)
  have fresh: "Group (example_runner [True]) = []"
    by (simp add: example_runner_fields)
  have same: "(example_runner [True])\<lparr>forTesting := False\<rparr> = example_runner []"
    by (simp add: example_runner_def OnClose_def AddRunner_def New_def)
  obtain res where r: "Run world_closed 0 (example_runner [True]) (Ctx True) (Mux 0) = Some res"
    using Run_example_testing by blast
  obtain res' where r': "Run world_closed 1 ((example_runner [True])\<lparr>forTesting := False\<rparr>)
      (Ctx True) (Mux 0) = Some res'"
    unfolding same using Run_example_serving by blast
  have srv: "\<lparr>Addr = addr (serverConfig (example_runner [True])), Handler = Mux 0\<rparr> = example_server"
    by (simp add: example_runner_fields example_server_def addr_examples [THEN conjunct1])
  show ?thesis
    using testing_mode_binds_no_listener
      [of "example_runner [True]" "Mux 0" world_closed "Ctx True" 0 1]
      testing fresh r r' srv
    by (auto simp: example_runner_fields)
qed

section \<open>Async and the cleanups\<close>

text \<open>
  C3: \<open>Async\<close> adds the background actors and nothing else: no actor waits for the
  context, and a call that comes to its end has called \<open>Close\<close> on no cleanup, where
  \<open>Run\<close> on the same runner closes them all. At the example runner, whose two
  cleanups \<open>Run\<close> releases, \<open>Async\<close> returns with no \<open>Close\<close> call at all.
\<close>

theorem Async_releases_no_cleanup:
  "Async world_closed 0 (example_runner []) (Ctx True) =
     Some \<lparr>receiver = (example_runner [])\<lparr>Group := [RunFnActor (RunFn 1 WhenDone) (Ctx True)]\<rparr>,
           started = [Log (Slog 0) Debug ''async runner started'' []],
           group_result =
             \<lparr>outcome = None,
              executions = [([Called (RunFn 1 WhenDone) (Ctx True)], None)],
              interrupts = []\<rparr>,
           finished = [], status = Returned\<rparr> \<and>
   cleanup (example_runner []) =
     [closer (CloseFn 1 (Some (ErrOther ''connection lost''))), closer (CloseFn 2 None)] \<and>
   fires (Ctx True) \<and>
   Group (Async_actors r ctx) = Group r @ map (\<lambda>runFn. RunFnActor runFn ctx) (runners r)"
  by (simp add: Async_example example_runner_fields example_cleanups_def Closer_def
      Async_actors_eq)

end
